theory Spec2Isabelle
  imports Complex_Main "HOL-Library.Word" "HOL-Library.Sublist"
begin

section \<open>The LiveCritic component: data\<close>

text \<open>
  The model follows \<^verbatim>\<open>LiveCritic\<close> (the realtime audio session of the repository).
  Browser objects (audio contexts, nodes, the microphone stream, the session promise)
  are handles; every call the component makes on one of them is appended to a list of
  effects, in program order. Times of the audio clock and durations are real numbers:
  the JavaScript numbers of the source without rounding. \<open>max\<close> is exact on doubles, a
  sum is exact here and rounded to the nearest double there, so the cursor is advanced
  below only by values whose sum with it a double holds exactly.
\<close>

type_synonym handle = nat

datatype Status = Idle | Connecting | Live | Error

record AudioBuffer =
  duration :: real

record Blob =
  data :: string
  mimeType :: string

text \<open>What \<^verbatim>\<open>await decodeAudioData(decode(audioBlob.data), ctx, 24000, 1)\<close> gives back:
  a buffer, or an exception caught by the handler's \<^verbatim>\<open>catch\<close>.\<close>

datatype decode_result = DecodeError | Decoded AudioBuffer

text \<open>The state of the promise returned by \<^verbatim>\<open>connectLiveSession\<close>: pending with the
  frames whose \<^verbatim>\<open>then\<close> callbacks wait on it (oldest first), fulfilled, or rejected.\<close>

datatype promise = Pending "Blob list" | Fulfilled | Rejected

text \<open>
  The calls on browser objects, with the handles they concern. \<open>AudioContext_new c r\<close>
  is \<^verbatim>\<open>new AudioContext({sampleRate: r})\<close> giving \<open>c\<close>; \<open>MediaStream_acquired st\<close> is
  \<^verbatim>\<open>getUserMedia\<close> resolving with the stream \<open>st\<close>; \<open>BufferSource_start c w b\<close> is
  \<^verbatim>\<open>source.start(w)\<close> of a source of context \<open>c\<close> playing \<open>b\<close>. The component never
  stops the tracks of a stream and never closes a session: \<open>MediaStreamTrack_stop\<close> and
  \<open>LiveSession_close\<close> are there so that this can be said.
\<close>

datatype effect =
    AudioContext_new handle nat
  | MediaStream_acquired handle
  | MediaStreamSource_new handle handle handle
  | ScriptProcessor_new handle handle
  | LiveSession_connect handle
  | AudioNode_connect handle handle
  | AudioNode_connect_destination handle handle
  | ScriptProcessor_disconnect handle
  | MediaStreamSource_disconnect handle
  | AudioContext_close handle
  | MediaStreamTrack_stop handle
  | LiveSession_close handle
  | BufferSource_start handle real AudioBuffer
  | Timeout_set real
  | sendRealtimeInput handle Blob
  | console_error

text \<open>The component: its four \<^verbatim>\<open>useState\<close> values, its five refs, and the
  environment (promise table, next unused handle, effects so far).\<close>

record state =
  active :: bool
  status :: Status
  volume :: real
  isSpeaking :: bool
  audioContextRef :: "handle option"
  sessionPromiseRef :: "handle option"
  inputSourceRef :: "handle option"
  processorRef :: "handle option"
  nextStartTimeRef :: real
  promises :: "handle \<Rightarrow> promise"
  fresh :: handle
  effects :: "effect list"

definition init :: state where
  "init = \<lparr>active = False, status = Idle, volume = 0, isSpeaking = False,
     audioContextRef = None, sessionPromiseRef = None, inputSourceRef = None,
     processorRef = None, nextStartTimeRef = 0, promises = (\<lambda>_. Rejected),
     fresh = 0, effects = []\<rparr>"

text \<open>Performing effects: they are appended to the list.\<close>

definition emit :: "effect list \<Rightarrow> state \<Rightarrow> state" where
  "emit es s = s\<lparr>effects := effects s @ es\<rparr>"

section \<open>The PCM codec of audioUtils\<close>

text \<open>
  \<^verbatim>\<open>createPcmBlob\<close>, \<^verbatim>\<open>decode\<close> and \<^verbatim>\<open>decodeAudioData\<close> are imported from
  \<^verbatim>\<open>../services/audioUtils\<close>, which is not among the sources. Every definition of
  this section is modelled from the specification's contract of the PCM encoder and of
  the PCM decoder.
\<close>

type_synonym byte = "8 word"

text \<open>Modelled from the spec: the base64 alphabet of the transport encoding (the
  encoder of audioUtils is missing), the character of a 6-bit value and the value of a
  character.\<close>

definition b64_alphabet :: string where
  "b64_alphabet = ''ABCDEFGHIJKLMNOPQRSTUVWXYZabcdefghijklmnopqrstuvwxyz0123456789+/''"

definition b64_char :: "nat \<Rightarrow> char" where
  "b64_char n = b64_alphabet ! (n mod 64)"

fun index_of :: "'a list \<Rightarrow> 'a \<Rightarrow> nat option" where
  "index_of [] y = None"
| "index_of (x # xs) y = (if x = y then Some 0 else map_option Suc (index_of xs y))"

definition b64_index :: "char \<Rightarrow> nat option" where
  "b64_index c = index_of b64_alphabet c"

text \<open>Modelled from the spec: the base64 transport encoding of a byte buffer
  (\<^verbatim>\<open>encode\<close> of audioUtils is missing): three bytes become four characters, a final
  group of one or two bytes is padded with \<^verbatim>\<open>=\<close>.\<close>

fun encode :: "byte list \<Rightarrow> string" where
  "encode (a # b # c # bs) =
     (let n = unat a * 65536 + unat b * 256 + unat c
      in b64_char (n div 262144) # b64_char (n div 4096) # b64_char (n div 64) # b64_char n
           # encode bs)"
| "encode [a, b] =
     (let n = unat a * 65536 + unat b * 256
      in [b64_char (n div 262144), b64_char (n div 4096), b64_char (n div 64), CHR ''=''])"
| "encode [a] =
     (let n = unat a * 65536
      in [b64_char (n div 262144), b64_char (n div 4096), CHR ''='', CHR ''=''])"
| "encode [] = []"

text \<open>Modelled from the spec: \<^verbatim>\<open>decode\<close> of audioUtils is missing; it turns the base64
  payload of an inbound blob back into bytes and fails (\<open>None\<close>) on a malformed or
  truncated payload.\<close>

fun decode :: "string \<Rightarrow> byte list option" where
  "decode [] = Some []"
| "decode (c0 # c1 # c2 # c3 # cs) =
     (case (b64_index c0, b64_index c1) of
        (Some i0, Some i1) \<Rightarrow>
          (if c2 = CHR ''='' \<and> c3 = CHR ''='' \<and> cs = [] then
             Some [of_nat ((i0 * 262144 + i1 * 4096) div 65536)]
           else
             (case b64_index c2 of
                Some i2 \<Rightarrow>
                  (if c3 = CHR ''='' \<and> cs = [] then
                     (let n = i0 * 262144 + i1 * 4096 + i2 * 64
                      in Some [of_nat (n div 65536), of_nat (n div 256)])
                   else
                     (case (b64_index c3, decode cs) of
                        (Some i3, Some bs) \<Rightarrow>
                          (let n = i0 * 262144 + i1 * 4096 + i2 * 64 + i3
                           in Some (of_nat (n div 65536) # of_nat (n div 256) # of_nat n # bs))
                      | _ \<Rightarrow> None))
              | None \<Rightarrow> None))
      | _ \<Rightarrow> None)"
| "decode _ = None"

text \<open>Modelled from the spec: the quantiser of the missing encoder. One sample in
  \<open>[-1, 1]\<close> becomes a signed 16-bit value with quantisation step \<open>1/32768\<close>, rounded
  to the nearest step and saturating at the ends of the 16-bit range (the specification
  fixes the step through its tolerance, not the rounding).\<close>

definition to_int16 :: "real \<Rightarrow> 16 word" where
  "to_int16 x = word_of_int (max (- 32768) (min 32767 (round (x * 32768))))"

text \<open>Modelled from the spec: the little-endian byte order of the 16-bit PCM buffer, low
  byte first, and its inverse.\<close>

definition le_bytes :: "16 word \<Rightarrow> byte list" where
  "le_bytes w = [ucast w, ucast (drop_bit 8 w)]"

definition of_le_bytes :: "byte \<Rightarrow> byte \<Rightarrow> 16 word" where
  "of_le_bytes lo hi = word_cat hi lo"

text \<open>Modelled from the spec: the 16-bit PCM byte buffer of a sample sequence, two bytes
  a sample.\<close>

definition pcm_bytes :: "real list \<Rightarrow> byte list" where
  "pcm_bytes xs = concat (map (\<lambda>x. le_bytes (to_int16 x)) xs)"

text \<open>Modelled from the spec: \<^verbatim>\<open>createPcmBlob\<close> of audioUtils is missing. The PCM
  encoder: little-endian 16-bit PCM of the same sample count, base64-encoded, tagged
  \<^verbatim>\<open>audio/pcm;rate=16000\<close>.\<close>

definition createPcmBlob :: "real list \<Rightarrow> Blob" where
  "createPcmBlob xs = \<lparr>data = encode (pcm_bytes xs), mimeType = ''audio/pcm;rate=16000''\<rparr>"

text \<open>Modelled from the spec: the samples of a little-endian 16-bit PCM byte buffer (the
  decoder of audioUtils is missing); a buffer with half a sample is truncated.\<close>

fun pcm_samples :: "byte list \<Rightarrow> real list option" where
  "pcm_samples [] = Some []"
| "pcm_samples (lo # hi # bs) =
     map_option (\<lambda>ys. real_of_int (sint (of_le_bytes lo hi)) / 32768 # ys) (pcm_samples bs)"
| "pcm_samples [b] = None"

text \<open>Modelled from the spec: \<^verbatim>\<open>decodeAudioData\<close> of audioUtils is missing. The PCM
  decoder: the samples of the byte buffer, or a failure on a truncated one.\<close>

definition decodeAudioData :: "byte list \<Rightarrow> real list option" where
  "decodeAudioData bs = pcm_samples bs"

text \<open>Modelled from the spec: decoding a blob is \<^verbatim>\<open>decodeAudioData(decode(blob.data))\<close>,
  as the message handler calls the two missing functions.\<close>

definition decodePcmBlob :: "Blob \<Rightarrow> real list option" where
  "decodePcmBlob b = (case decode (data b) of None \<Rightarrow> None | Some bs \<Rightarrow> decodeAudioData bs)"

text \<open>Modelled from the spec: the range of the encoder's input samples and the
  quantisation tolerance of the round trip, \<open>\<plusminus>1/32768\<close>.\<close>

definition sample_in_range :: "real \<Rightarrow> bool" where
  "sample_in_range x = (- 1 \<le> x \<and> x \<le> 1)"

definition within_tolerance :: "real \<Rightarrow> real \<Rightarrow> bool" where
  "within_tolerance y x = (\<bar>y - x\<bar> \<le> 1 / 32768)"

section \<open>The operations of LiveCritic\<close>

text \<open>\<^verbatim>\<open>disconnect\<close>: three guarded releases, then the four state setters.\<close>

definition release_processor :: "state \<Rightarrow> state" where
  "release_processor s =
     (case processorRef s of
        Some p \<Rightarrow> (emit [ScriptProcessor_disconnect p] s)\<lparr>processorRef := None\<rparr>
      | None \<Rightarrow> s)"

definition release_inputSource :: "state \<Rightarrow> state" where
  "release_inputSource s =
     (case inputSourceRef s of
        Some i \<Rightarrow> (emit [MediaStreamSource_disconnect i] s)\<lparr>inputSourceRef := None\<rparr>
      | None \<Rightarrow> s)"

definition release_audioContext :: "state \<Rightarrow> state" where
  "release_audioContext s =
     (case audioContextRef s of
        Some c \<Rightarrow> (emit [AudioContext_close c] s)\<lparr>audioContextRef := None\<rparr>
      | None \<Rightarrow> s)"

definition disconnect :: "state \<Rightarrow> state" where
  "disconnect s =
     (release_audioContext (release_inputSource (release_processor s)))
       \<lparr>active := False, status := Idle, isSpeaking := False, volume := 0\<rparr>"

text \<open>\<^verbatim>\<open>startSession\<close>. The environment decides where the device setup fails, if it
  does. The function runs to \<^verbatim>\<open>await getUserMedia\<close> (\<open>startSession_begin\<close>, which
  says whether it is suspended there) and continues when the request settles
  (\<open>startSession_resume\<close>). The \<^verbatim>\<open>catch\<close> block logs and sets the status.\<close>

datatype setup_fault =
    NoFault
  | OutputContextFails
  | GetUserMediaRejected
  | InputContextFails
  | CreateSourceFails
  | CreateProcessorFails

definition startSession_catch :: "state \<Rightarrow> state" where
  "startSession_catch s = (emit [console_error] s)\<lparr>status := Error\<rparr>"

definition startSession_begin :: "setup_fault \<Rightarrow> state \<Rightarrow> bool \<times> state" where
  "startSession_begin f s =
     (let s1 = s\<lparr>status := Connecting\<rparr> in
      if f = OutputContextFails then (False, startSession_catch s1)
      else
        (True, (emit [AudioContext_new (fresh s1) 24000] s1)
                 \<lparr>audioContextRef := Some (fresh s1), fresh := fresh s1 + 1\<rparr>))"

definition startSession_resume :: "setup_fault \<Rightarrow> state \<Rightarrow> state" where
  "startSession_resume f s =
     (if f = GetUserMediaRejected then startSession_catch s
      else
        let st = fresh s;
            s1 = (emit [MediaStream_acquired st] s)\<lparr>fresh := st + 1\<rparr>
        in if f = InputContextFails then startSession_catch s1
        else
          let ic = fresh s1;
              s2 = (emit [AudioContext_new ic 16000] s1)\<lparr>fresh := ic + 1\<rparr>
          in if f = CreateSourceFails then startSession_catch s2
          else
            let src = fresh s2;
                s3 = (emit [MediaStreamSource_new src ic st] s2)
                       \<lparr>inputSourceRef := Some src, fresh := src + 1\<rparr>
            in if f = CreateProcessorFails then startSession_catch s3
            else
              let pr = fresh s3;
                  s4 = (emit [ScriptProcessor_new pr ic] s3)
                         \<lparr>processorRef := Some pr, fresh := pr + 1\<rparr>;
                  p = fresh s4;
                  s5 = (emit [LiveSession_connect p] s4)
                         \<lparr>sessionPromiseRef := Some p,
                          promises := (promises s4)(p := Pending []),
                          fresh := p + 1\<rparr>
              in emit [AudioNode_connect src pr, AudioNode_connect_destination pr ic] s5)"

text \<open>The whole of \<^verbatim>\<open>startSession\<close>, with nothing else running while it waits.\<close>

definition startSession :: "setup_fault \<Rightarrow> state \<Rightarrow> state" where
  "startSession f s =
     (case startSession_begin f s of
        (True, s') \<Rightarrow> startSession_resume f s'
      | (False, s') \<Rightarrow> s')"

text \<open>The callbacks given to \<^verbatim>\<open>connectLiveSession\<close>.\<close>

definition onOpen :: "state \<Rightarrow> state" where
  "onOpen s = s\<lparr>status := Live, active := True\<rparr>"

text \<open>The message handler up to its \<^verbatim>\<open>await\<close>: the guard on the output context, the
  capture of \<^verbatim>\<open>ctx\<close>, and the cursor raised to the audio clock \<open>now\<close>
  (\<^verbatim>\<open>ctx.currentTime\<close>). The result says which context the continuation holds, if the
  guard let the handler through.\<close>

definition onMessage_begin :: "real \<Rightarrow> state \<Rightarrow> handle option \<times> state" where
  "onMessage_begin now s =
     (case audioContextRef s of
        None \<Rightarrow> (None, s)
      | Some ctx \<Rightarrow> (Some ctx, s\<lparr>nextStartTimeRef := max (nextStartTimeRef s) now\<rparr>))"

text \<open>The message handler after its \<^verbatim>\<open>await\<close>, with the captured \<^verbatim>\<open>ctx\<close> and what the
  decoding gave. The clock is not read here. The cursor advances by the exact sum, where
  \<^verbatim>\<open>+=\<close> of the source rounds the sum to a double.\<close>

definition onMessage_resume :: "handle \<Rightarrow> decode_result \<Rightarrow> state \<Rightarrow> state" where
  "onMessage_resume ctx r s =
     (case r of
        Decoded audioBuffer \<Rightarrow>
          (emit [BufferSource_start ctx (nextStartTimeRef s) audioBuffer,
                 Timeout_set (duration audioBuffer * 1000)] s)
            \<lparr>nextStartTimeRef := nextStartTimeRef s + duration audioBuffer,
             isSpeaking := True, volume := 0.8\<rparr>
      | DecodeError \<Rightarrow> emit [console_error] s)"

text \<open>The handler run from its entry to its end with nothing else in between.\<close>

definition onMessage :: "real \<Rightarrow> decode_result \<Rightarrow> state \<Rightarrow> state" where
  "onMessage now r s =
     (case onMessage_begin now s of
        (None, s') \<Rightarrow> s'
      | (Some ctx, s') \<Rightarrow> onMessage_resume ctx r s')"

definition onError :: "state \<Rightarrow> state" where
  "onError s = disconnect ((emit [console_error] s)\<lparr>status := Error\<rparr>)"

definition onClose :: "state \<Rightarrow> state" where
  "onClose s = disconnect (s\<lparr>status := Idle\<rparr>)"

definition timeout_fired :: "state \<Rightarrow> state" where
  "timeout_fired s = s\<lparr>volume := 0, isSpeaking := False\<rparr>"

text \<open>\<^verbatim>\<open>promise.then(session => session.sendRealtimeInput({media: pcmBlob}))\<close>: on a
  pending promise the callback queues behind the earlier ones, on a fulfilled one it
  runs, on a rejected one it never runs.\<close>

definition promise_then :: "handle \<Rightarrow> Blob \<Rightarrow> state \<Rightarrow> state" where
  "promise_then p b s =
     (case promises s p of
        Pending q \<Rightarrow> s\<lparr>promises := (promises s)(p := Pending (q @ [b]))\<rparr>
      | Fulfilled \<Rightarrow> emit [sendRealtimeInput p b] s
      | Rejected \<Rightarrow> s)"

definition onaudioprocess :: "real list \<Rightarrow> state \<Rightarrow> state" where
  "onaudioprocess inputData s =
     (let pcmBlob = createPcmBlob inputData in
      case sessionPromiseRef s of
        None \<Rightarrow> s
      | Some p \<Rightarrow> promise_then p pcmBlob s)"

text \<open>The session promise settles: the waiting callbacks run in the order they were
  attached, or are dropped.\<close>

definition session_fulfilled :: "handle \<Rightarrow> state \<Rightarrow> state" where
  "session_fulfilled p s =
     (case promises s p of
        Pending q \<Rightarrow> (emit (map (sendRealtimeInput p) q) s)
                       \<lparr>promises := (promises s)(p := Fulfilled)\<rparr>
      | _ \<Rightarrow> s)"

definition session_rejected :: "handle \<Rightarrow> state \<Rightarrow> state" where
  "session_rejected p s =
     (case promises s p of
        Pending q \<Rightarrow> s\<lparr>promises := (promises s)(p := Rejected)\<rparr>
      | _ \<Rightarrow> s)"

section \<open>Runs of the component\<close>

text \<open>Everything that can happen to the component, one callback at a time (the source
  is single-threaded). A decode completion carries the context its handler captured.\<close>

datatype event =
    StartSession setup_fault
  | MediaSettled setup_fault
  | Disconnect
  | SessionFulfilled handle
  | SessionRejected handle
  | OnOpen
  | OnMessage
  | DecodeDone handle decode_result
  | OnError
  | OnClose
  | AudioProcess "real list"
  | TimeoutFired

text \<open>One event, dispatched when the audio clock (\<^verbatim>\<open>currentTime\<close> of the output
  context) shows \<open>t\<close>. Only the entry of the message handler reads the clock.\<close>

fun step :: "real \<Rightarrow> event \<Rightarrow> state \<Rightarrow> state" where
  "step t (StartSession f) s = snd (startSession_begin f s)"
| "step t (MediaSettled f) s = startSession_resume f s"
| "step t Disconnect s = disconnect s"
| "step t (SessionFulfilled p) s = session_fulfilled p s"
| "step t (SessionRejected p) s = session_rejected p s"
| "step t OnOpen s = onOpen s"
| "step t OnMessage s = snd (onMessage_begin t s)"
| "step t (DecodeDone ctx r) s = onMessage_resume ctx r s"
| "step t OnError s = onError s"
| "step t OnClose s = onClose s"
| "step t (AudioProcess inputData) s = onaudioprocess inputData s"
| "step t TimeoutFired s = timeout_fired s"

fun run :: "(real \<times> event) list \<Rightarrow> state \<Rightarrow> state" where
  "run [] s = s"
| "run ((t, e) # tes) s = run tes (step t e s)"

section \<open>Observations on the effects\<close>

fun is_new_context :: "handle \<Rightarrow> effect \<Rightarrow> bool" where
  "is_new_context c (AudioContext_new c' r) = (c = c')"
| "is_new_context c _ = False"

definition context_open :: "handle \<Rightarrow> effect list \<Rightarrow> bool" where
  "context_open c es = (list_ex (is_new_context c) es \<and> AudioContext_close c \<notin> set es)"

definition stream_live :: "handle \<Rightarrow> effect list \<Rightarrow> bool" where
  "stream_live st es = (MediaStream_acquired st \<in> set es \<and> MediaStreamTrack_stop st \<notin> set es)"

text \<open>The playback windows scheduled by a list of effects: start time and duration of
  every \<^verbatim>\<open>source.start\<close>, in order.\<close>

fun starts :: "effect list \<Rightarrow> (real \<times> real) list" where
  "starts [] = []"
| "starts (BufferSource_start c w b # es) = (w, duration b) # starts es"
| "starts (e # es) = starts es"

text \<open>The frames handed to the session of promise \<open>p\<close>, in order.\<close>

fun sent :: "handle \<Rightarrow> effect list \<Rightarrow> Blob list" where
  "sent p [] = []"
| "sent p (sendRealtimeInput p' b # es) = (if p' = p then b # sent p es else sent p es)"
| "sent p (e # es) = sent p es"

text \<open>The effects a step adds.\<close>

definition added :: "state \<Rightarrow> state \<Rightarrow> effect list" where
  "added s s' = drop (length (effects s)) (effects s')"

text \<open>The schedule of a run: for every playback window, the audio clock at the moment
  \<^verbatim>\<open>source.start\<close> was called, the start time given to it, and the duration.\<close>

fun schedule :: "(real \<times> event) list \<Rightarrow> state \<Rightarrow> (real \<times> real \<times> real) list" where
  "schedule [] s = []"
| "schedule ((t, e) # tes) s =
     map (\<lambda>wd. (t, wd)) (starts (added s (step t e s))) @ schedule tes (step t e s)"

text \<open>A session brought up from the initial state: devices acquired, the session
  promise (handle 5) fulfilled, the channel open.\<close>

definition live_state :: state where
  "live_state = onOpen (session_fulfilled 5 (startSession NoFault init))"

section \<open>Schedules and the wire\<close>

text \<open>An entry of a schedule (clock, start time, duration) starts no earlier than the
  clock at the moment it was scheduled.\<close>

definition on_time :: "real \<times> real \<times> real \<Rightarrow> bool" where
  "on_time x = (fst x \<le> fst (snd x))"

text \<open>The chunks a run delivers to \<^verbatim>\<open>onaudioprocess\<close>, in order; the frames attached to
  a pending promise; the frames of a session, sent or still waiting; a run made of
  capture callbacks only.\<close>

fun captured :: "(real \<times> event) list \<Rightarrow> real list list" where
  "captured [] = []"
| "captured ((t, AudioProcess inputData) # tes) = inputData # captured tes"
| "captured (te # tes) = captured tes"

definition pending :: "handle \<Rightarrow> state \<Rightarrow> Blob list" where
  "pending p s = (case promises s p of Pending q \<Rightarrow> q | _ \<Rightarrow> [])"

definition wire :: "handle \<Rightarrow> state \<Rightarrow> Blob list" where
  "wire p s = sent p (effects s) @ pending p s"

fun capture_events :: "(real \<times> real list) list \<Rightarrow> (real \<times> event) list" where
  "capture_events [] = []"
| "capture_events ((t, inputData) # tcs) = (t, AudioProcess inputData) # capture_events tcs"

section \<open>Basic facts\<close>

lemmas handler_defs =
  startSession_def startSession_begin_def startSession_resume_def startSession_catch_def
  session_fulfilled_def session_rejected_def onOpen_def onMessage_def onMessage_begin_def
  onMessage_resume_def onError_def onClose_def onaudioprocess_def promise_then_def
  timeout_fired_def

lemma emit_sel [simp]:
  "effects (emit es s) = effects s @ es"
  "active (emit es s) = active s"
  "status (emit es s) = status s"
  "volume (emit es s) = volume s"
  "isSpeaking (emit es s) = isSpeaking s"
  "audioContextRef (emit es s) = audioContextRef s"
  "sessionPromiseRef (emit es s) = sessionPromiseRef s"
  "inputSourceRef (emit es s) = inputSourceRef s"
  "processorRef (emit es s) = processorRef s"
  "nextStartTimeRef (emit es s) = nextStartTimeRef s"
  "promises (emit es s) = promises s"
  "fresh (emit es s) = fresh s"
  by (simp_all add: emit_def)

lemma added_append [simp]: "effects s' = effects s @ es \<Longrightarrow> added s s' = es"
  by (simp add: added_def)

lemma disconnect_eq:
  "disconnect s =
     s\<lparr>processorRef := None, inputSourceRef := None, audioContextRef := None,
       active := False, status := Idle, isSpeaking := False, volume := 0,
       effects := effects s
         @ (case processorRef s of Some p \<Rightarrow> [ScriptProcessor_disconnect p] | None \<Rightarrow> [])
         @ (case inputSourceRef s of Some i \<Rightarrow> [MediaStreamSource_disconnect i] | None \<Rightarrow> [])
         @ (case audioContextRef s of Some c \<Rightarrow> [AudioContext_close c] | None \<Rightarrow> [])\<rparr>"
  by (simp add: disconnect_def release_processor_def release_inputSource_def
      release_audioContext_def emit_def split: option.splits)

lemma disconnect_twice: "disconnect (disconnect s) = disconnect s"
  by (simp add: disconnect_eq)

lemma sent_append: "sent p (es @ es') = sent p es @ sent p es'"
  by (induction p es rule: sent.induct) simp_all

lemma live_state_eq:
  "live_state = \<lparr>active = True, status = Live, volume = 0, isSpeaking = False,
     audioContextRef = Some 0, sessionPromiseRef = Some 5, inputSourceRef = Some 3,
     processorRef = Some 4, nextStartTimeRef = 0,
     promises = (\<lambda>_. Rejected)(5 := Fulfilled), fresh = 6,
     effects = [AudioContext_new 0 24000, MediaStream_acquired 1, AudioContext_new 2 16000,
       MediaStreamSource_new 3 2 1, ScriptProcessor_new 4 2, LiveSession_connect 5,
       AudioNode_connect 3 4, AudioNode_connect_destination 4 2]\<rparr>"
proof -
  have five: "Suc (Suc (Suc (Suc (Suc 0)))) = 5" by simp
  show ?thesis
    by (simp add: live_state_def handler_defs init_def Let_def emit_def five)
qed

lemma sent_map_send [simp]:
  "sent p (map (sendRealtimeInput p') q) = (if p' = p then q else [])"
  by (induction q) auto

lemma captured_Cons: "captured (te # tes) = captured [te] @ captured tes"
  by (cases "(te # tes)" rule: captured.cases) simp_all

lemma wire_step:
  "subseq (wire p (step t e s)) (wire p s @ map createPcmBlob (captured [(t, e)]))"
  by (cases e)
    (auto simp: handler_defs Let_def disconnect_eq wire_def pending_def sent_append
      split: option.splits promise.splits decode_result.splits)

lemma wire_run:
  "subseq (wire p (run tes s)) (wire p s @ map createPcmBlob (captured tes))"
proof (induction tes arbitrary: s)
  case Nil
  then show ?case by simp
next
  case (Cons te tes)
  obtain t e where te: "te = (t, e)" by (cases te)
  have "subseq (wire p (run tes (step t e s)))
          (wire p (step t e s) @ map createPcmBlob (captured tes))"
    by (rule Cons.IH)
  also have "subseq (wire p (step t e s) @ map createPcmBlob (captured tes))
          ((wire p s @ map createPcmBlob (captured [(t, e)])) @ map createPcmBlob (captured tes))"
    by (intro list_emb_append_mono wire_step subseq_order.order_refl)
  finally show ?case
    by (simp add: te captured_Cons [of "(t, e)" tes])
qed

lemma capture_fulfilled:
  "sessionPromiseRef s = Some p \<Longrightarrow> promises s p = Fulfilled \<Longrightarrow>
   effects (run (capture_events tcs) s)
     = effects s @ map (\<lambda>tc. sendRealtimeInput p (createPcmBlob (snd tc))) tcs
   \<and> sessionPromiseRef (run (capture_events tcs) s) = Some p
   \<and> promises (run (capture_events tcs) s) = promises s"
proof (induction tcs arbitrary: s)
  case Nil
  then show ?case by simp
next
  case (Cons tc tcs)
  obtain t c where tc: "tc = (t, c)" by (cases tc)
  let ?s' = "onaudioprocess c s"
  from Cons.prems have s': "?s' = emit [sendRealtimeInput p (createPcmBlob c)] s"
    by (simp add: onaudioprocess_def promise_then_def)
  then have "sessionPromiseRef ?s' = Some p" "promises ?s' p = Fulfilled"
    using Cons.prems by simp_all
  from Cons.IH [OF this] show ?case
    by (simp add: tc s')
qed

lemma capture_pending:
  "sessionPromiseRef s = Some p \<Longrightarrow> promises s p = Pending q \<Longrightarrow>
   effects (run (capture_events tcs) s) = effects s
   \<and> sessionPromiseRef (run (capture_events tcs) s) = Some p
   \<and> promises (run (capture_events tcs) s) p
       = Pending (q @ map (\<lambda>tc. createPcmBlob (snd tc)) tcs)"
proof (induction tcs arbitrary: s q)
  case Nil
  then show ?case by simp
next
  case (Cons tc tcs)
  obtain t c where tc: "tc = (t, c)" by (cases tc)
  let ?s' = "onaudioprocess c s"
  from Cons.prems have s': "?s' = s\<lparr>promises := (promises s)(p := Pending (q @ [createPcmBlob c]))\<rparr>"
    by (simp add: onaudioprocess_def promise_then_def)
  then have "sessionPromiseRef ?s' = Some p" "promises ?s' p = Pending (q @ [createPcmBlob c])"
    using Cons.prems by simp_all
  from Cons.IH [OF this] show ?case
    by (simp add: tc s')
qed

section \<open>Facts about the codec\<close>

lemma sextets:
  "(n div 262144 mod 64) * 262144 + (n div 4096 mod 64) * 4096 + (n div 64 mod 64) * 64 + n mod 64 = (n::nat) mod 16777216"
proof -
  have a: "n div 4096 = n div 64 div 64" by (simp add: div_mult2_eq)
  have b: "n div 262144 = n div 64 div 64 div 64" by (simp add: div_mult2_eq)
  have m: "n mod 16777216 = n mod 64 + 64 * (n div 64 mod 64) + 4096 * (n div 64 div 64 mod 64) + 262144 * (n div 64 div 64 div 64 mod 64)"
    using mod_mult2_eq [of n 64 262144] mod_mult2_eq [of "n div 64" 64 4096]
      mod_mult2_eq [of "n div 64 div 64" 64 64]
    by simp
  show ?thesis by (simp add: a b m)
qed

lemma index_of_nth:
  "distinct xs \<Longrightarrow> i < length xs \<Longrightarrow> index_of xs (xs ! i) = Some i"
proof (induction xs arbitrary: i)
  case Nil
  then show ?case by simp
next
  case (Cons x xs)
  show ?case
  proof (cases i)
    case 0
    then show ?thesis by simp
  next
    case (Suc j)
    with Cons.prems have "xs ! j \<in> set xs" "x \<notin> set xs" by simp_all
    then have "x \<noteq> xs ! j" by blast
    with Cons Suc show ?thesis by simp
  qed
qed

lemma b64_alphabet_distinct: "distinct b64_alphabet"
  by (simp add: b64_alphabet_def)

lemma b64_alphabet_length: "length b64_alphabet = 64"
  by (simp add: b64_alphabet_def)

lemma b64_alphabet_no_pad: "CHR ''='' \<notin> set b64_alphabet"
  by (simp add: b64_alphabet_def)

lemma b64_index_char [simp]: "b64_index (b64_char n) = Some (n mod 64)"
  by (simp add: b64_index_def b64_char_def index_of_nth b64_alphabet_distinct
      b64_alphabet_length)

lemma b64_char_not_pad [simp]: "b64_char n \<noteq> CHR ''=''"
proof -
  have "b64_char n \<in> set b64_alphabet"
    by (simp add: b64_char_def b64_alphabet_length)
  with b64_alphabet_no_pad show ?thesis by metis
qed

lemma byte_lt: "unat (a :: byte) < 256"
  using unsigned_less [of a, where ?'a = nat] by simp

lemma three_bytes:
  fixes a b c :: byte
  defines "n \<equiv> unat a * 65536 + unat b * 256 + unat c"
  shows "n mod 16777216 = n" and "of_nat (n div 65536) = a" and "of_nat (n div 256) = b"
    and "of_nat n = c"
proof -
  note bs = byte_lt [of a] byte_lt [of b] byte_lt [of c]
  from bs show "n mod 16777216 = n" by (simp add: n_def)
  from bs have "n div 65536 = unat a" by (simp add: n_def)
  then show "of_nat (n div 65536) = a" by simp
  from bs have d: "n div 256 = unat a * 256 + unat b" by (simp add: n_def)
  have z: "(256 :: byte) = 0" "(65536 :: byte) = 0" by simp_all
  from d show "of_nat (n div 256) = b" by (simp add: z)
  show "of_nat n = c" by (simp add: n_def z)
qed


lemma decode_encode: "decode (encode bs) = Some bs"
proof (induction bs rule: encode.induct)
  case (1 a b c bs)
  define n where "n = unat a * 65536 + unat b * 256 + unat c"
  have m: "n mod 16777216 = n"
    unfolding n_def by (rule three_bytes(1))
  have n: "(n div 262144 mod 64) * 262144 + (n div 4096 mod 64) * 4096
        + (n div 64 mod 64) * 64 + n mod 64 = n"
    by (rule trans [OF sextets m])
  have bytes: "of_nat (n div 65536) = a" "of_nat (n div 256) = b" "of_nat n = c"
    using three_bytes(2-4) [of a b c] by (simp_all add: n_def)
  have "decode (encode (a # b # c # bs))
      = decode (b64_char (n div 262144) # b64_char (n div 4096) # b64_char (n div 64)
          # b64_char n # encode bs)"
    by (simp add: n_def Let_def)
  also have "\<dots> = Some (a # b # c # bs)"
    by (simp add: "1.IH" n bytes Let_def)
  finally show ?case .
next
  case (2 a b)
  define n where "n = unat a * 65536 + unat b * 256"
  have z: "n mod 64 = 0" by (simp add: n_def)
  have m: "n mod 16777216 = n"
    using three_bytes(1) [of a b 0] by (simp add: n_def)
  have full: "(n div 262144 mod 64) * 262144 + (n div 4096 mod 64) * 4096
        + (n div 64 mod 64) * 64 + n mod 64 = n"
    by (rule trans [OF sextets m])
  have n: "(n div 262144 mod 64) * 262144 + (n div 4096 mod 64) * 4096
        + (n div 64 mod 64) * 64 = n"
    using full [unfolded z] by (simp only: add_0_right)
  have bytes: "of_nat (n div 65536) = a" "of_nat (n div 256) = b"
    using three_bytes(2-3) [of a b 0] by (simp_all add: n_def)
  have "decode (encode [a, b])
      = decode [b64_char (n div 262144), b64_char (n div 4096), b64_char (n div 64), CHR ''='']"
    by (simp add: n_def Let_def)
  also have "\<dots> = Some [a, b]"
    by (simp add: n bytes Let_def)
  finally show ?case .
next
  case (3 a)
  define n where "n = unat a * 65536"
  have z: "n mod 64 = 0" "n div 64 mod 64 = 0" by (simp_all add: n_def)
  have m: "n mod 16777216 = n"
    using three_bytes(1) [of a 0 0] by (simp add: n_def)
  have full: "(n div 262144 mod 64) * 262144 + (n div 4096 mod 64) * 4096
        + (n div 64 mod 64) * 64 + n mod 64 = n"
    by (rule trans [OF sextets m])
  have n: "(n div 262144 mod 64) * 262144 + (n div 4096 mod 64) * 4096 = n"
    using full [unfolded z] by (simp only: add_0_right mult_zero_left)
  have bytes: "of_nat (n div 65536) = a"
    using three_bytes(2) [of a 0 0] by (simp_all add: n_def)
  have "decode (encode [a])
      = decode [b64_char (n div 262144), b64_char (n div 4096), CHR ''='', CHR ''='']"
    by (simp add: n_def Let_def)
  also have "\<dots> = Some [a]"
    by (simp add: n bytes Let_def)
  finally show ?case .
next
  case 4
  then show ?case by simp
qed

lemma of_le_bytes_le_bytes: "of_le_bytes (ucast w) (ucast (drop_bit 8 w)) = w"
  unfolding of_le_bytes_def
  by (rule bit_word_eqI) (auto simp: bit_word_cat_iff bit_ucast_iff bit_drop_bit_eq not_less)

lemma pcm_samples_pcm_bytes:
  "pcm_samples (pcm_bytes xs) = Some (map (\<lambda>x. real_of_int (sint (to_int16 x)) / 32768) xs)"
  by (induction xs) (simp_all add: pcm_bytes_def le_bytes_def of_le_bytes_le_bytes)

lemma length_pcm_bytes: "length (pcm_bytes xs) = 2 * length xs"
  by (induction xs) (simp_all add: pcm_bytes_def le_bytes_def)

lemma sint_to_int16:
  "sint (to_int16 x) = max (- 32768) (min 32767 (round (x * 32768)))"
proof -
  let ?q = "max (- 32768) (min 32767 (round (x * 32768)))"
  have "- (2 ^ 15) \<le> ?q" and "?q < 2 ^ 15" by simp_all
  then have "signed_take_bit 15 ?q = ?q" by (rule signed_take_bit_int_eq_self)
  then show ?thesis by (simp add: to_int16_def sint_sbintrunc')
qed

lemma quantisation_error:
  assumes "- 1 \<le> x" and "x \<le> 1"
  shows "\<bar>real_of_int (sint (to_int16 x)) / 32768 - x\<bar> \<le> 1 / 32768"
proof -
  let ?y = "x * 32768"
  let ?r = "round ?y"
  have lo: "?y - 1 / 2 \<le> real_of_int ?r" and hi: "real_of_int ?r \<le> ?y + 1 / 2"
    by (rule of_int_round_ge, rule of_int_round_le)
  from assms have y: "- 32768 \<le> ?y" "?y \<le> 32768" by simp_all
  from lo y have "- 32768 - 1 / 2 \<le> real_of_int ?r" by linarith
  then have rl: "- 32768 \<le> ?r" by linarith
  have "\<bar>real_of_int (max (- 32768) (min 32767 ?r)) - ?y\<bar> \<le> 1"
  proof (cases "?r \<le> 32767")
    case True
    with rl have "max (- 32768) (min 32767 ?r) = ?r" by simp
    with lo hi show ?thesis by simp
  next
    case False
    then have "max (- 32768) (min 32767 ?r) = 32767" by simp
    moreover from False have "32768 \<le> real_of_int ?r" by linarith
    with hi have "32767 + 1 / 2 \<le> ?y" by linarith
    ultimately show ?thesis using y by simp
  qed
  then have "\<bar>real_of_int (sint (to_int16 x)) - ?y\<bar> \<le> 1"
    by (simp add: sint_to_int16)
  then show ?thesis by linarith
qed


lemma quantisation_ok:
  assumes "- 1 \<le> x" and "x \<le> 1"
  shows "within_tolerance (signed (to_int16 x) / 32768) x"
proof -
  have "(signed (to_int16 x) :: real) = real_of_int (sint (to_int16 x))"
    by simp
  with quantisation_error [OF assms] show ?thesis
    by (simp only: within_tolerance_def)
qed

lemma to_int16_examples: "to_int16 0 = 0" "to_int16 (1 / 2) = 16384" "to_int16 (- (1 / 2)) = - 16384"
  "to_int16 1 = 32767" "to_int16 (- 1) = - 32768"
  by (simp_all add: to_int16_def)

lemma pcm_bytes_example: "pcm_bytes [0, 1 / 2, - (1 / 2), 1, - 1] = [0, 0, 0, 64, 0, 192, 255, 127, 0, 128]"
  by (simp add: pcm_bytes_def le_bytes_def to_int16_examples)

lemma encode_example: "encode [0, 0, 0, 64, 0, 192, 255, 127, 0, 128] = ''AAAAQADA/38AgA==''"
  by (simp add: b64_char_def b64_alphabet_def)

lemma pcm_samples_example: "pcm_samples [0, 0, 0, 64, 0, 192, 255, 127, 0, 128]
   = Some [0, 1 / 2, - (1 / 2), 32767 / 32768, - 1]"
  by (simp add: of_le_bytes_def word_cat_eq)


section \<open>The playback scheduler\<close>

text \<open>
  Claim C1 on the code. The handler reads the audio clock once, on entry, before it
  awaits the decoding, and not again. A blob enters a live session at clock 10 with the
  cursor at 0, so the cursor becomes 10; its decoding completes at clock 10.125 with a
  buffer of 2 s. The buffer is given the start time 10, the cursor, while the maximum of
  cursor and audio clock at the moment the decoded buffer is scheduled is 10.125. The
  cursor then becomes start time plus duration, 12.
\<close>

theorem start_time_from_entry_clock:
  "fst (onMessage_begin 10 live_state) = Some 0
   \<and> nextStartTimeRef (run [(10, OnMessage)] live_state) = 10
   \<and> schedule [(10, OnMessage), (10.125, DecodeDone 0 (Decoded \<lparr>duration = 2\<rparr>))] live_state
       = [(10.125, 10, 2)]
   \<and> max (nextStartTimeRef (run [(10, OnMessage)] live_state)) 10.125 = 10.125
   \<and> nextStartTimeRef
        (run [(10, OnMessage), (10.125, DecodeDone 0 (Decoded \<lparr>duration = 2\<rparr>))] live_state)
       = 12"
  by (simp add: live_state_eq onMessage_begin_def onMessage_resume_def added_def)

text \<open>
  Claim C2 on the code. Two blobs of 1 s each: the first enters at clock 10 and its
  decoding completes at clock 10.125, the second enters and completes at clock 10.25.
  The first is scheduled at clock 10.125 with the start time 10, before the clock, and at
  that moment the cursor (10) is behind the clock; the second is given the start time 11.
\<close>

theorem start_before_clock:
  "schedule [(10, OnMessage), (10.125, DecodeDone 0 (Decoded \<lparr>duration = 1\<rparr>)),
             (10.25, OnMessage), (10.25, DecodeDone 0 (Decoded \<lparr>duration = 1\<rparr>))] live_state
     = [(10.125, 10, 1), (10.25, 11, 1)]
   \<and> \<not> list_all on_time
        (schedule [(10, OnMessage), (10.125, DecodeDone 0 (Decoded \<lparr>duration = 1\<rparr>)),
                   (10.25, OnMessage), (10.25, DecodeDone 0 (Decoded \<lparr>duration = 1\<rparr>))]
           live_state)
   \<and> nextStartTimeRef (run [(10, OnMessage)] live_state) < 10.125"
  by (simp add: live_state_eq onMessage_begin_def onMessage_resume_def added_def on_time_def)

text \<open>
  Claim C3, as stated, fails: the handler raises the cursor to the audio clock before it
  starts decoding, so a blob that fails to decode at clock 5 moves the cursor from 0 to 5.
\<close>

theorem decode_failure_moves_cursor:
  "nextStartTimeRef (onMessage 5 DecodeError live_state) \<noteq> nextStartTimeRef live_state"
  by (simp add: live_state_eq onMessage_def onMessage_begin_def onMessage_resume_def)

text \<open>
  Claim C3, amended. A decode failure is logged and nothing else: no playback is
  scheduled, no resource is released, status, activity and the refs stay as they were. The
  cursor is never advanced by a duration; the handler's entry has raised it to
  \<open>max cursor now\<close>, which leaves it unchanged when the clock is not ahead of it.
\<close>

theorem onMessage_decode_failure:
  assumes "audioContextRef s = Some ctx"
  shows "onMessage now DecodeError s
           = s\<lparr>nextStartTimeRef := max (nextStartTimeRef s) now,
               effects := effects s @ [console_error]\<rparr>
       \<and> onMessage_resume ctx DecodeError s = s\<lparr>effects := effects s @ [console_error]\<rparr>
       \<and> added s (onMessage now DecodeError s) = [console_error]
       \<and> status (onMessage now DecodeError s) = status s
       \<and> active (onMessage now DecodeError s) = active s
       \<and> audioContextRef (onMessage now DecodeError s) = Some ctx
       \<and> (now \<le> nextStartTimeRef s \<longrightarrow>
            nextStartTimeRef (onMessage now DecodeError s) = nextStartTimeRef s)"
  using assms
  by (simp add: onMessage_def onMessage_begin_def onMessage_resume_def emit_def added_def)

text \<open>Claim C3 (amended) at a live session with cursor and clock at 0.\<close>

theorem onMessage_decode_failure_witness:
  "audioContextRef live_state = Some 0
   \<and> added live_state (onMessage 0 DecodeError live_state) = [console_error]
   \<and> status (onMessage 0 DecodeError live_state) = Live
   \<and> (0::real) \<le> nextStartTimeRef live_state
   \<and> nextStartTimeRef (onMessage 0 DecodeError live_state) = 0"
proof -
  have g: "audioContextRef live_state = Some 0"
    by (simp add: live_state_eq)
  show ?thesis
    using onMessage_decode_failure [OF g, of 0]
    by (simp add: live_state_eq)
qed

section \<open>Starting and tearing down\<close>

text \<open>
  Claim C4 on the code. When \<^verbatim>\<open>getUserMedia\<close> is rejected the status becomes
  \<^verbatim>\<open>error\<close>, but the \<^verbatim>\<open>catch\<close> block releases nothing: the output context made
  before the request stays open and stays in its ref. When the input context cannot be
  made, the microphone stream stays live as well.
\<close>

theorem startSession_permission_denied:
  "status (startSession GetUserMediaRejected init) = Error
   \<and> audioContextRef (startSession GetUserMediaRejected init) = Some 0
   \<and> effects (startSession GetUserMediaRejected init)
       = [AudioContext_new 0 24000, console_error]
   \<and> context_open 0 (effects (startSession GetUserMediaRejected init))
   \<and> context_open 0 (effects (startSession InputContextFails init))
   \<and> stream_live 1 (effects (startSession InputContextFails init))"
  by (simp add: handler_defs init_def Let_def emit_def context_open_def stream_live_def)

text \<open>
  Claim C5 on the code. \<^verbatim>\<open>disconnect\<close> of a live session disconnects the processor
  and the source node and closes the output context; the 16 kHz input context (handle 2)
  and the microphone stream (handle 1) were locals of \<^verbatim>\<open>startSession\<close> and stay open.
\<close>

theorem disconnect_leaves_capture_devices:
  "effects (disconnect live_state) = effects live_state
       @ [ScriptProcessor_disconnect 4, MediaStreamSource_disconnect 3, AudioContext_close 0]
   \<and> \<not> context_open 0 (effects (disconnect live_state))
   \<and> context_open 2 (effects (disconnect live_state))
   \<and> stream_live 1 (effects (disconnect live_state))"
  by (simp add: disconnect_eq live_state_eq context_open_def stream_live_def)

text \<open>
  Claim C6. A second \<^verbatim>\<open>disconnect\<close> changes nothing: the state after two calls is the
  state after one (status idle, inactive, the three device refs null), the second call
  performs no effect, and over both calls each release operation on a handle held before
  is performed exactly once.
\<close>

theorem disconnect_idempotent:
  "disconnect (disconnect s) = disconnect s
   \<and> status (disconnect s) = Idle \<and> \<not> active (disconnect s)
   \<and> processorRef (disconnect s) = None \<and> inputSourceRef (disconnect s) = None
   \<and> audioContextRef (disconnect s) = None
   \<and> added (disconnect s) (disconnect (disconnect s)) = []
   \<and> (processorRef s = Some p \<longrightarrow>
        count_list (added s (disconnect (disconnect s))) (ScriptProcessor_disconnect p) = 1)
   \<and> (inputSourceRef s = Some i \<longrightarrow>
        count_list (added s (disconnect (disconnect s))) (MediaStreamSource_disconnect i) = 1)
   \<and> (audioContextRef s = Some c \<longrightarrow>
        count_list (added s (disconnect (disconnect s))) (AudioContext_close c) = 1)"
  by (simp add: disconnect_twice) (simp add: disconnect_eq added_def split: option.splits)

text \<open>Claim C6 at a live session, which holds processor 4, source 3 and context 0.\<close>

theorem disconnect_idempotent_witness:
  "processorRef live_state = Some 4 \<and> inputSourceRef live_state = Some 3
   \<and> audioContextRef live_state = Some 0
   \<and> disconnect (disconnect live_state) = disconnect live_state
   \<and> count_list (added live_state (disconnect (disconnect live_state)))
        (ScriptProcessor_disconnect 4) = 1
   \<and> count_list (added live_state (disconnect (disconnect live_state)))
        (MediaStreamSource_disconnect 3) = 1
   \<and> count_list (added live_state (disconnect (disconnect live_state)))
        (AudioContext_close 0) = 1"
proof -
  have r: "processorRef live_state = Some 4" "inputSourceRef live_state = Some 3"
    "audioContextRef live_state = Some 0"
    by (simp_all add: live_state_eq)
  show ?thesis
    using disconnect_idempotent [of live_state 4 3 0] r by blast
qed

text \<open>
  Claim C7 on the code. A handler that entered while the session was live captured the
  context and is awaiting the decoding when \<^verbatim>\<open>disconnect\<close> runs. Its completion does
  not look at the ref again: it starts a buffer source on the closed context, advances
  the cursor and sets the speaking indicator.
\<close>

theorem decode_completes_after_disconnect:
  "fst (onMessage_begin 1 live_state) = Some 0
   \<and> audioContextRef (run [(1, OnMessage), (1, Disconnect)] live_state) = None
   \<and> \<not> context_open 0 (effects (run [(1, OnMessage), (1, Disconnect)] live_state))
   \<and> nextStartTimeRef (run [(1, OnMessage), (1, Disconnect)] live_state) = 1
   \<and> \<not> isSpeaking (run [(1, OnMessage), (1, Disconnect)] live_state)
   \<and> added (run [(1, OnMessage), (1, Disconnect)] live_state)
        (run [(1, OnMessage), (1, Disconnect), (1, DecodeDone 0 (Decoded \<lparr>duration = 2\<rparr>))]
           live_state)
       = [BufferSource_start 0 1 \<lparr>duration = 2\<rparr>, Timeout_set 2000]
   \<and> nextStartTimeRef
        (run [(1, OnMessage), (1, Disconnect), (1, DecodeDone 0 (Decoded \<lparr>duration = 2\<rparr>))]
           live_state) = 3
   \<and> isSpeaking
        (run [(1, OnMessage), (1, Disconnect), (1, DecodeDone 0 (Decoded \<lparr>duration = 2\<rparr>))]
           live_state)"
  by (simp add: disconnect_eq live_state_eq context_open_def onMessage_begin_def
      onMessage_resume_def added_def)

text \<open>
  Claim C10. \<^verbatim>\<open>disconnect\<close> does not touch the session: the session promise ref and
  the promise are as before, nothing is sent to or closed on the session, and the cursor
  stays. Of the refs only processor, input source and output context change (to null); the
  four state values are reset.
\<close>

theorem disconnect_keeps_session:
  "sessionPromiseRef (disconnect s) = sessionPromiseRef s
   \<and> promises (disconnect s) = promises s
   \<and> nextStartTimeRef (disconnect s) = nextStartTimeRef s
   \<and> sent p (effects (disconnect s)) = sent p (effects s)
   \<and> LiveSession_close p \<notin> set (added s (disconnect s))
   \<and> disconnect s =
       s\<lparr>processorRef := None, inputSourceRef := None, audioContextRef := None,
         active := False, status := Idle, isSpeaking := False, volume := 0,
         effects := effects s
           @ (case processorRef s of Some p \<Rightarrow> [ScriptProcessor_disconnect p] | None \<Rightarrow> [])
           @ (case inputSourceRef s of Some i \<Rightarrow> [MediaStreamSource_disconnect i] | None \<Rightarrow> [])
           @ (case audioContextRef s of Some c \<Rightarrow> [AudioContext_close c] | None \<Rightarrow> [])\<rparr>"
proof -
  note eq = disconnect_eq [of s]
  have "sent p (effects (disconnect s)) = sent p (effects s)"
    by (simp add: disconnect_eq sent_append split: option.splits)
  moreover have "LiveSession_close p \<notin> set (added s (disconnect s))"
    by (simp add: disconnect_eq added_def split: option.splits)
  moreover have "sessionPromiseRef (disconnect s) = sessionPromiseRef s"
    "promises (disconnect s) = promises s"
    "nextStartTimeRef (disconnect s) = nextStartTimeRef s"
    by (simp_all add: disconnect_eq)
  ultimately show ?thesis using eq by simp
qed

section \<open>The capture pipeline\<close>

text \<open>
  Claim C8. For every session (promise \<open>p\<close>) and every run from the initial state, the
  frames sent to the session are, in order, frames of the chunks captured during the
  run: nothing is reordered. In a session whose promise is fulfilled every capture
  callback sends its frame at once, so the frames sent are exactly the encoded chunks in
  capture order; while the promise is pending nothing is sent, and when it is fulfilled
  the waiting frames go out in capture order.
\<close>

theorem frames_sent_in_capture_order:
  "subseq (sent p (effects (run tes init))) (map createPcmBlob (captured tes))
   \<and> (sessionPromiseRef s = Some p \<and> promises s p = Fulfilled \<longrightarrow>
        added s (run (capture_events tcs) s)
          = map (\<lambda>tc. sendRealtimeInput p (createPcmBlob (snd tc))) tcs)
   \<and> (sessionPromiseRef s = Some p \<and> promises s p = Pending [] \<longrightarrow>
        added s (run (capture_events tcs) s) = []
        \<and> added s (session_fulfilled p (run (capture_events tcs) s))
          = map (\<lambda>tc. sendRealtimeInput p (createPcmBlob (snd tc))) tcs)"
proof (intro conjI impI)
  have "subseq (wire p (run tes init)) (wire p init @ map createPcmBlob (captured tes))"
    by (rule wire_run)
  moreover have "wire p init = []"
    by (simp add: wire_def pending_def init_def)
  moreover have "subseq (sent p (effects (run tes init))) (wire p (run tes init))"
    by (simp add: wire_def prefix_imp_subseq)
  ultimately show "subseq (sent p (effects (run tes init))) (map createPcmBlob (captured tes))"
    by (metis append_Nil subseq_order.trans)
next
  assume "sessionPromiseRef s = Some p \<and> promises s p = Fulfilled"
  then show "added s (run (capture_events tcs) s)
          = map (\<lambda>tc. sendRealtimeInput p (createPcmBlob (snd tc))) tcs"
    using capture_fulfilled [of s p tcs] by simp
next
  assume h: "sessionPromiseRef s = Some p \<and> promises s p = Pending []"
  then show "added s (run (capture_events tcs) s) = []"
    using capture_pending [of s p "[]" tcs] by (simp add: added_def)
  from h show "added s (session_fulfilled p (run (capture_events tcs) s))
          = map (\<lambda>tc. sendRealtimeInput p (createPcmBlob (snd tc))) tcs"
    using capture_pending [of s p "[]" tcs] by (simp add: session_fulfilled_def)
qed


text \<open>Claim C8 on two chunks, in a live session and in one whose promise is pending.\<close>

theorem frames_sent_in_capture_order_witness:
  "sessionPromiseRef live_state = Some 5 \<and> promises live_state 5 = Fulfilled
   \<and> added live_state (run (capture_events [(0, [0]), (1, [1 / 2])]) live_state)
       = [sendRealtimeInput 5 (createPcmBlob [0]), sendRealtimeInput 5 (createPcmBlob [1 / 2])]
   \<and> sessionPromiseRef (startSession NoFault init) = Some 5
   \<and> promises (startSession NoFault init) 5 = Pending []
   \<and> added (startSession NoFault init)
        (session_fulfilled 5
          (run (capture_events [(0, [0]), (1, [1 / 2])]) (startSession NoFault init)))
       = [sendRealtimeInput 5 (createPcmBlob [0]), sendRealtimeInput 5 (createPcmBlob [1 / 2])]"
proof -
  have l: "sessionPromiseRef live_state = Some 5 \<and> promises live_state 5 = Fulfilled"
    by (simp add: live_state_eq)
  have five: "Suc (Suc (Suc (Suc (Suc 0)))) = 5" by simp
  have c: "sessionPromiseRef (startSession NoFault init) = Some 5
     \<and> promises (startSession NoFault init) 5 = Pending []"
    by (simp add: handler_defs init_def Let_def five)
  have m: "map (\<lambda>tc. sendRealtimeInput 5 (createPcmBlob (snd tc))) [(0::real, [0]), (1, [1 / 2])]
     = [sendRealtimeInput 5 (createPcmBlob [0]), sendRealtimeInput 5 (createPcmBlob [1 / 2])]"
    by simp
  from frames_sent_in_capture_order [of 5 "[]" live_state "[(0, [0]), (1, [1 / 2])]"]
    frames_sent_in_capture_order [of 5 "[]" "startSession NoFault init" "[(0, [0]), (1, [1 / 2])]"]
    l c m
  show ?thesis by metis
qed

section \<open>The PCM round trip\<close>

text \<open>
  Claim C9, on the codec as the specification describes it. For every sample sequence
  with values in \<open>[-1, 1]\<close> the blob made by \<^verbatim>\<open>createPcmBlob\<close> is tagged
  \<^verbatim>\<open>audio/pcm;rate=16000\<close>, its payload is the base64 form of a byte buffer with two
  bytes a sample, low byte first, and decoding the blob gives as many samples as were
  encoded, each within \<open>1/32768\<close> of the original.
\<close>

theorem pcm_round_trip:
  assumes "list_all sample_in_range xs"
  shows "mimeType (createPcmBlob xs) = ''audio/pcm;rate=16000''
       \<and> decode (data (createPcmBlob xs))
           = Some (concat (map (\<lambda>x. [ucast (to_int16 x), ucast (drop_bit 8 (to_int16 x))]) xs))
       \<and> length (pcm_bytes xs) = 2 * length xs
       \<and> (\<exists>ys. decodePcmBlob (createPcmBlob xs) = Some ys \<and> length ys = length xs
              \<and> list_all2 within_tolerance ys xs)"
proof -
  let ?ys = "map (\<lambda>x. real_of_int (sint (to_int16 x)) / 32768) xs"
  have d: "decode (data (createPcmBlob xs)) = Some (pcm_bytes xs)"
    by (simp add: createPcmBlob_def decode_encode)
  then have "decodePcmBlob (createPcmBlob xs) = Some ?ys"
    by (simp add: decodePcmBlob_def decodeAudioData_def pcm_samples_pcm_bytes)
  moreover have "list_all2 within_tolerance ?ys xs"
    using assms
    by (simp add: list_all2_map1 list_all2_same quantisation_ok list_all_iff
        sample_in_range_def)
  ultimately have "\<exists>ys. decodePcmBlob (createPcmBlob xs) = Some ys \<and> length ys = length xs
              \<and> list_all2 within_tolerance ys xs"
    by simp
  moreover have "mimeType (createPcmBlob xs) = ''audio/pcm;rate=16000''"
    by (simp add: createPcmBlob_def)
  moreover have "decode (data (createPcmBlob xs))
           = Some (concat (map (\<lambda>x. [ucast (to_int16 x), ucast (drop_bit 8 (to_int16 x))]) xs))"
    by (simp add: d pcm_bytes_def le_bytes_def)
  ultimately show ?thesis
    by (simp add: length_pcm_bytes)
qed

text \<open>Claim C9 on the samples 0, 0.5, -0.5, 1 and -1: only 1 is changed, to
  \<open>32767/32768\<close>.\<close>

theorem pcm_round_trip_witness:
  "list_all sample_in_range [0, 1 / 2, - (1 / 2), 1, - 1]
   \<and> createPcmBlob [0, 1 / 2, - (1 / 2), 1, - 1]
       = \<lparr>data = ''AAAAQADA/38AgA=='', mimeType = ''audio/pcm;rate=16000''\<rparr>
   \<and> decodePcmBlob (createPcmBlob [0, 1 / 2, - (1 / 2), 1, - 1])
       = Some [0, 1 / 2, - (1 / 2), 32767 / 32768, - 1]
   \<and> list_all2 within_tolerance
        [0, 1 / 2, - (1 / 2), 32767 / 32768, - 1] [0, 1 / 2, - (1 / 2), 1, - 1]"
proof -
  let ?xs = "[0, 1 / 2, - (1 / 2), 1, - 1 :: real]"
  have h: "list_all sample_in_range ?xs"
    by (simp add: sample_in_range_def)
  have c: "createPcmBlob ?xs
       = \<lparr>data = ''AAAAQADA/38AgA=='', mimeType = ''audio/pcm;rate=16000''\<rparr>"
    by (simp only: createPcmBlob_def pcm_bytes_example encode_example)
  have "decode (data (createPcmBlob ?xs)) = Some [0, 0, 0, 64, 0, 192, 255, 127, 0, 128]"
    using decode_encode [of "pcm_bytes ?xs"] by (simp only: createPcmBlob_def pcm_bytes_example Blob.simps)
  then have d: "decodePcmBlob (createPcmBlob ?xs) = Some [0, 1 / 2, - (1 / 2), 32767 / 32768, - 1]"
    by (simp only: decodePcmBlob_def decodeAudioData_def option.case pcm_samples_example)
  from pcm_round_trip [OF h] obtain ys where
    "decodePcmBlob (createPcmBlob ?xs) = Some ys" and "list_all2 within_tolerance ys ?xs"
    by blast
  with d have "list_all2 within_tolerance [0, 1 / 2, - (1 / 2), 32767 / 32768, - 1] ?xs"
    by simp
  with h c d show ?thesis by blast
qed

end
